theory Spec2Isabelle
  imports Complex_Main "HOL-Library.Multiset"
begin

section \<open>JavaScript values as used by \<open>analyzeSurveyData\<close> (src/server.js)\<close>

text \<open>
  A JavaScript number is an IEEE-754 double. The model keeps the three special values the
  code can observe (\<open>NaN\<close>, \<open>-Infinity\<close>, \<open>Infinity\<close>) and represents every finite double
  by the rational it denotes. Arithmetic on finite values is exact: rounding, underflow and
  overflow of doubles, and the sign of zero, are outside the model.
\<close>

datatype jsnum = NaN | NegInf | Fin rat | PosInf

text \<open>
  A cell of a row is a string, a number, \<open>null\<close>, or absent (\<open>undefined\<close>), as the
  parsers that feed \<open>analyzeSurveyData\<close> produce them. Strings are lists of 8-bit
  characters.
\<close>

datatype jsval = Undefined | Null | Str string | Num jsnum

text \<open>
  A row is a JavaScript object: an association list in the order \<open>Object.keys\<close> reports,
  with \<open>row[key]\<close> yielding \<open>undefined\<close> for an absent key.
\<close>

type_synonym row = "(string \<times> jsval) list"

definition object_keys :: "row \<Rightarrow> string list" where
  "object_keys r = map fst r"

definition get_prop :: "row \<Rightarrow> string \<Rightarrow> jsval" where
  "get_prop r key = (case map_of r key of None \<Rightarrow> Undefined | Some v \<Rightarrow> v)"

subsection \<open>Number arithmetic\<close>

definition isNaN :: "jsnum \<Rightarrow> bool" where
  "isNaN n = (n = NaN)"

fun js_neg :: "jsnum \<Rightarrow> jsnum" where
  "js_neg NaN = NaN"
| "js_neg NegInf = PosInf"
| "js_neg PosInf = NegInf"
| "js_neg (Fin a) = Fin (- a)"

fun js_add :: "jsnum \<Rightarrow> jsnum \<Rightarrow> jsnum" where
  "js_add NaN _ = NaN"
| "js_add _ NaN = NaN"
| "js_add PosInf NegInf = NaN"
| "js_add NegInf PosInf = NaN"
| "js_add PosInf _ = PosInf"
| "js_add _ PosInf = PosInf"
| "js_add NegInf _ = NegInf"
| "js_add _ NegInf = NegInf"
| "js_add (Fin a) (Fin b) = Fin (a + b)"

definition js_sub :: "jsnum \<Rightarrow> jsnum \<Rightarrow> jsnum" where
  "js_sub a b = js_add a (js_neg b)"

text \<open>Division; a zero divisor is taken as \<open>+0\<close>.\<close>

fun js_div :: "jsnum \<Rightarrow> jsnum \<Rightarrow> jsnum" where
  "js_div NaN _ = NaN"
| "js_div _ NaN = NaN"
| "js_div (Fin a) (Fin b) =
     (if b = 0 then (if a = 0 then NaN else if 0 < a then PosInf else NegInf)
      else Fin (a / b))"
| "js_div (Fin a) _ = Fin 0"
| "js_div PosInf (Fin b) = (if 0 \<le> b then PosInf else NegInf)"
| "js_div NegInf (Fin b) = (if 0 \<le> b then NegInf else PosInf)"
| "js_div _ _ = NaN"

text \<open>The relational operator \<open><\<close> on numbers: false whenever an operand is \<open>NaN\<close>.\<close>

fun js_lt :: "jsnum \<Rightarrow> jsnum \<Rightarrow> bool" where
  "js_lt NaN _ = False"
| "js_lt _ NaN = False"
| "js_lt (Fin a) (Fin b) = (a < b)"
| "js_lt NegInf b = (b \<noteq> NegInf)"
| "js_lt a PosInf = (a \<noteq> PosInf)"
| "js_lt _ _ = False"

definition js_le :: "jsnum \<Rightarrow> jsnum \<Rightarrow> bool" where
  "js_le a b = (a \<noteq> NaN \<and> b \<noteq> NaN \<and> \<not> js_lt b a)"

subsection \<open>Strings: white space and numeric literals\<close>

text \<open>
  The white space and line terminators of ECMAScript that fit in 8 bits: TAB, LF, VT, FF,
  CR, SP and NBSP.
\<close>

definition is_ws :: "char \<Rightarrow> bool" where
  "is_ws c = ((of_char c :: nat) \<in> {9, 10, 11, 12, 13, 32, 160})"

definition trim_start :: "string \<Rightarrow> string" where
  "trim_start s = dropWhile is_ws s"

definition trim :: "string \<Rightarrow> string" where
  "trim s = rev (dropWhile is_ws (rev (dropWhile is_ws s)))"

definition is_digit :: "char \<Rightarrow> bool" where
  "is_digit c = (48 \<le> (of_char c :: nat) \<and> (of_char c :: nat) \<le> 57)"

definition digit_val :: "char \<Rightarrow> nat" where
  "digit_val c = of_char c - 48"

definition digits_val :: "string \<Rightarrow> nat" where
  "digits_val ds = foldl (\<lambda>a c. 10 * a + digit_val c) 0 ds"

definition pow10 :: "int \<Rightarrow> rat" where
  "pow10 e = (if 0 \<le> e then 10 ^ nat e else 1 / 10 ^ nat (- e))"

text \<open>
  \<open>ExponentPart\<close>: \<open>e\<close> or \<open>E\<close>, an optional sign, at least one digit. When no exponent part
  starts the string, the exponent is 0 and nothing is consumed.
\<close>

definition scan_exponent :: "string \<Rightarrow> int \<times> string" where
  "scan_exponent s =
     (case s of
        [] \<Rightarrow> (0, s)
      | c # r \<Rightarrow>
          if c = CHR ''e'' \<or> c = CHR ''E'' then
            (let (neg, r') =
               (case r of
                  [] \<Rightarrow> (False, r)
                | d # r2 \<Rightarrow>
                    if d = CHR ''-'' then (True, r2)
                    else if d = CHR ''+'' then (False, r2)
                    else (False, r));
                 ds = takeWhile is_digit r'
             in if ds = [] then (0, s)
                else (if neg then - int (digits_val ds) else int (digits_val ds),
                      dropWhile is_digit r'))
          else (0, s))"

definition with_exponent :: "rat \<Rightarrow> string \<Rightarrow> (rat \<times> string) option" where
  "with_exponent m r = (let (e, r') = scan_exponent r in Some (m * pow10 e, r'))"

text \<open>
  The longest prefix that is a \<open>StrUnsignedDecimalLiteral\<close> other than \<open>Infinity\<close>
  (\<open>digits [. [digits]] [exponent]\<close> or \<open>. digits [exponent]\<close>), with its value and the
  rest of the string; \<open>None\<close> when no prefix is one.
\<close>

definition scan_unsigned :: "string \<Rightarrow> (rat \<times> string) option" where
  "scan_unsigned s =
     (let ip = takeWhile is_digit s; r1 = dropWhile is_digit s
      in case r1 of
           [] \<Rightarrow> if ip = [] then None else Some (of_nat (digits_val ip), [])
         | c # r2 \<Rightarrow>
             if c = CHR ''.'' then
               (let fp = takeWhile is_digit r2; r3 = dropWhile is_digit r2
                in if ip = [] \<and> fp = [] then None
                   else with_exponent
                          (of_nat (digits_val ip) + of_nat (digits_val fp) / 10 ^ length fp) r3)
             else if ip = [] then None
             else with_exponent (of_nat (digits_val ip)) r1)"

text \<open>The longest prefix that is a \<open>StrDecimalLiteral\<close>: an optional sign first.\<close>

definition scan_decimal :: "string \<Rightarrow> (jsnum \<times> string) option" where
  "scan_decimal s =
     (let (neg, r) =
        (case s of
           [] \<Rightarrow> (False, s)
         | c # r0 \<Rightarrow>
             if c = CHR ''-'' then (True, r0)
             else if c = CHR ''+'' then (False, r0)
             else (False, s))
      in if take 8 r = ''Infinity'' then Some (if neg then NegInf else PosInf, drop 8 r)
         else (case scan_unsigned r of
                 None \<Rightarrow> None
               | Some (q, r') \<Rightarrow> Some (Fin (if neg then - q else q), r')))"

text \<open>
  \<open>NonDecimalIntegerLiteral\<close>: \<open>0x\<close>, \<open>0o\<close> or \<open>0b\<close> (either case) and at least one digit of
  that radix, nothing else.
\<close>

definition radix_digit :: "char \<Rightarrow> nat option" where
  "radix_digit c =
     (let n = (of_char c :: nat)
      in if 48 \<le> n \<and> n \<le> 57 then Some (n - 48)
         else if 97 \<le> n \<and> n \<le> 102 then Some (n - 87)
         else if 65 \<le> n \<and> n \<le> 70 then Some (n - 55)
         else None)"

definition radix_ok :: "nat \<Rightarrow> char \<Rightarrow> bool" where
  "radix_ok b c = (case radix_digit c of None \<Rightarrow> False | Some d \<Rightarrow> d < b)"

definition radix_val :: "nat \<Rightarrow> string \<Rightarrow> nat" where
  "radix_val b ds = foldl (\<lambda>a c. b * a + the (radix_digit c)) 0 ds"

definition scan_radix :: "string \<Rightarrow> jsnum option" where
  "scan_radix t =
     (case t of
        z # x # ds \<Rightarrow>
          (let radix =
             (if x = CHR ''x'' \<or> x = CHR ''X'' then Some (16::nat)
              else if x = CHR ''o'' \<or> x = CHR ''O'' then Some 8
              else if x = CHR ''b'' \<or> x = CHR ''B'' then Some 2
              else None)
           in case radix of
                None \<Rightarrow> None
              | Some b \<Rightarrow>
                  if z = CHR ''0'' \<and> ds \<noteq> [] \<and> list_all (radix_ok b) ds
                  then Some (Fin (of_nat (radix_val b ds)))
                  else None)
      | _ \<Rightarrow> None)"

text \<open>
  \<open>StringToNumber\<close>: trim both ends; the empty string is 0; otherwise the whole string
  must be a numeric literal.
\<close>

definition string_to_number :: "string \<Rightarrow> jsnum" where
  "string_to_number s =
     (let t = trim s
      in if t = [] then Fin 0
         else (case scan_radix t of
                 Some n \<Rightarrow> n
               | None \<Rightarrow>
                   (case scan_decimal t of
                      Some (n, []) \<Rightarrow> n
                    | _ \<Rightarrow> NaN)))"

text \<open>\<open>Number(value)\<close>.\<close>

fun to_number :: "jsval \<Rightarrow> jsnum" where
  "to_number Undefined = NaN"
| "to_number Null = Fin 0"
| "to_number (Str s) = string_to_number s"
| "to_number (Num n) = n"

text \<open>
  The global \<open>parseFloat(value)\<close>: the value is converted to a string, leading white space
  is dropped, and the longest prefix that is a decimal literal is converted; \<open>NaN\<close> when
  there is none. \<open>String(undefined)\<close> and \<open>String(null)\<close> are the words \<open>undefined\<close> and
  \<open>null\<close>. The string form of a number reads back as that number.
\<close>

definition parseFloat_string :: "string \<Rightarrow> jsnum" where
  "parseFloat_string s =
     (case scan_decimal (trim_start s) of None \<Rightarrow> NaN | Some (n, _) \<Rightarrow> n)"

fun parseFloat :: "jsval \<Rightarrow> jsnum" where
  "parseFloat Undefined = parseFloat_string ''undefined''"
| "parseFloat Null = parseFloat_string ''null''"
| "parseFloat (Str s) = parseFloat_string s"
| "parseFloat (Num n) = n"

text \<open>The global \<open>isFinite(value)\<close>: \<open>Number(value)\<close> is neither \<open>NaN\<close> nor infinite.\<close>

definition isFinite :: "jsval \<Rightarrow> bool" where
  "isFinite v = (case to_number v of Fin _ \<Rightarrow> True | _ \<Rightarrow> False)"

text \<open>Truthiness of a value, as \<open>&&\<close> and \<open>filter\<close> test it.\<close>

fun truthy :: "jsval \<Rightarrow> bool" where
  "truthy Undefined = False"
| "truthy Null = False"
| "truthy (Str s) = (s \<noteq> [])"
| "truthy (Num n) = (n \<noteq> NaN \<and> n \<noteq> Fin 0)"

text \<open>
  \<open>String(value).trim().length > 0\<close>. The string form of a number (digits, \<open>NaN\<close>,
  \<open>Infinity\<close>) is never empty and holds no white space.
\<close>

fun string_trim_nonempty :: "jsval \<Rightarrow> bool" where
  "string_trim_nonempty Undefined = (trim ''undefined'' \<noteq> [])"
| "string_trim_nonempty Null = (trim ''null'' \<noteq> [])"
| "string_trim_nonempty (Str s) = (trim s \<noteq> [])"
| "string_trim_nonempty (Num n) = True"

section \<open>The analysis: \<open>analyzeSurveyData\<close>\<close>

subsection \<open>Column classification (lines 91 to 109)\<close>

text \<open>
  The \<open>for\<close> loop over \<open>i < Math.min(data.length, 100)\<close>, with its two counters as the
  pair \<open>(numericCount, totalValid)\<close>.
\<close>

function count_loop :: "row list \<Rightarrow> string \<Rightarrow> nat \<Rightarrow> nat \<times> nat \<Rightarrow> nat \<times> nat" where
  "count_loop data key i (numericCount, totalValid) =
     (if i < min (length data) 100 then
        (let v = get_prop (data ! i) key
         in if v \<noteq> Undefined \<and> v \<noteq> Null \<and> v \<noteq> Str [] then
              count_loop data key (i + 1)
                (if \<not> isNaN (parseFloat v) \<and> isFinite v then numericCount + 1
                 else numericCount,
                 totalValid + 1)
            else count_loop data key (i + 1) (numericCount, totalValid))
      else (numericCount, totalValid))"
  by pat_completeness auto
termination
  by (relation "measure (\<lambda>(data, key, i, c). min (length data) 100 - i)") auto

declare count_loop.simps [simp del]

text \<open>
  The test of line 106. The counters are at most 100, and for such counters the double
  quotient compares with 0.5 as the exact quotient does, so the quotient is taken in the
  rationals.
\<close>

definition mostly_numeric :: "row list \<Rightarrow> string \<Rightarrow> bool" where
  "mostly_numeric data key =
     (let (numericCount, totalValid) = count_loop data key 0 (0, 0)
      in totalValid > 0 \<and> (of_nat numericCount :: rat) / of_nat totalValid \<ge> 1 / 2)"

text \<open>\<open>allKeys.forEach\<close>, pushing each key that passes onto the list built so far.\<close>

fun classify_keys :: "row list \<Rightarrow> string list \<Rightarrow> string list \<Rightarrow> string list" where
  "classify_keys data [] numCols = numCols"
| "classify_keys data (key # keys) numCols =
     classify_keys data keys (if mostly_numeric data key then numCols @ [key] else numCols)"

subsection \<open>Statistics of a numeric column (lines 113 to 138)\<close>

record numeric_stats =
  count_stat :: nat
  sum_stat :: jsnum
  average :: jsnum
  min_stat :: jsnum
  max_stat :: jsnum
  median :: jsnum

text \<open>
  \<open>Math.min\<close> and \<open>Math.max\<close> of a spread list: \<open>Infinity\<close> and \<open>-Infinity\<close> for no
  argument, \<open>NaN\<close> as soon as an argument is \<open>NaN\<close>.
\<close>

definition js_min2 :: "jsnum \<Rightarrow> jsnum \<Rightarrow> jsnum" where
  "js_min2 a b = (if a = NaN \<or> b = NaN then NaN else if js_lt b a then b else a)"

definition js_max2 :: "jsnum \<Rightarrow> jsnum \<Rightarrow> jsnum" where
  "js_max2 a b = (if a = NaN \<or> b = NaN then NaN else if js_lt a b then b else a)"

definition math_min :: "jsnum list \<Rightarrow> jsnum" where
  "math_min xs = foldl js_min2 PosInf xs"

definition math_max :: "jsnum list \<Rightarrow> jsnum" where
  "math_max xs = foldl js_max2 NegInf xs"

text \<open>
  \<open>[...values].sort((a, b) => a - b)\<close>. The comparator is consistent on numbers other than
  \<open>NaN\<close> (a \<open>NaN\<close> difference, of equal infinities, counts as 0), so the sorted order is
  the same for every stable sorting method; the model inserts from the right.
\<close>

definition compare_fn :: "jsnum \<Rightarrow> jsnum \<Rightarrow> jsnum" where
  "compare_fn a b = js_sub a b"

fun sort_insert :: "jsnum \<Rightarrow> jsnum list \<Rightarrow> jsnum list" where
  "sort_insert x [] = [x]"
| "sort_insert x (y # ys) =
     (if js_lt (Fin 0) (compare_fn x y) then y # sort_insert x ys else x # y # ys)"

definition js_sort :: "jsnum list \<Rightarrow> jsnum list" where
  "js_sort xs = foldr sort_insert xs []"

definition median_of :: "jsnum list \<Rightarrow> jsnum" where
  "median_of vals =
     (let sortedValues = js_sort vals;
          midIndex = length sortedValues div 2
      in if length sortedValues mod 2 = 0
         then js_div (js_add (sortedValues ! (midIndex - 1)) (sortedValues ! midIndex)) (Fin 2)
         else sortedValues ! midIndex)"

definition column_values :: "row list \<Rightarrow> string \<Rightarrow> jsnum list" where
  "column_values data column =
     filter (\<lambda>val. \<not> isNaN val) (map (\<lambda>r. parseFloat (get_prop r column)) data)"

definition stats_of :: "jsnum list \<Rightarrow> numeric_stats" where
  "stats_of vals =
     (let total = foldl js_add (Fin 0) vals
      in \<lparr> count_stat = length vals,
           sum_stat = total,
           average = js_div total (Fin (of_nat (length vals))),
           min_stat = math_min vals,
           max_stat = math_max vals,
           median = median_of vals \<rparr>)"

text \<open>\<open>numericColumns.forEach\<close>, assigning into \<open>quantitativeAnalysis\<close>.\<close>

fun quantitative_loop ::
  "row list \<Rightarrow> string list \<Rightarrow> (string \<rightharpoonup> numeric_stats) \<Rightarrow> (string \<rightharpoonup> numeric_stats)" where
  "quantitative_loop data [] qa = qa"
| "quantitative_loop data (column # cols) qa =
     (let vals = column_values data column
      in if length vals > 0 then quantitative_loop data cols (qa(column \<mapsto> stats_of vals))
         else quantitative_loop data cols qa)"

subsection \<open>Samples of a text column (lines 144 to 156)\<close>

record qualitative_summary =
  totalEntries :: nat
  nonEmptyEntries :: nat
  sampleComments :: "jsval list"

text \<open>The filter of line 148: \<open>comment && String(comment).trim().length > 0\<close>.\<close>

definition keeps_comment :: "jsval \<Rightarrow> bool" where
  "keeps_comment comment = (truthy comment \<and> string_trim_nonempty comment)"

definition column_comments :: "row list \<Rightarrow> string \<Rightarrow> jsval list" where
  "column_comments data column =
     take 50 (filter keeps_comment (map (\<lambda>r. get_prop r column) data))"

fun qualitative_loop ::
  "row list \<Rightarrow> string list \<Rightarrow> (string \<rightharpoonup> qualitative_summary)
     \<Rightarrow> (string \<rightharpoonup> qualitative_summary)" where
  "qualitative_loop data [] qa = qa"
| "qualitative_loop data (column # cols) qa =
     (let comments = column_comments data column
      in qualitative_loop data cols
           (qa(column \<mapsto> \<lparr> totalEntries = length data,
                            nonEmptyEntries = length comments,
                            sampleComments = take 10 comments \<rparr>)))"

subsection \<open>The result (lines 82 to 168)\<close>

record analysis_metadata =
  totalRows :: nat
  totalColumns :: nat
  numericColumns :: "string list"
  textColumns :: "string list"

record analysis =
  quantitative :: "string \<rightharpoonup> numeric_stats"
  qualitative :: "string \<rightharpoonup> qualitative_summary"
  metadata :: analysis_metadata

text \<open>
  The result is either the object \<open>{ error: ... }\<close> or the object with the three fields
  \<open>quantitative\<close>, \<open>qualitative\<close> and \<open>metadata\<close>.
\<close>

datatype analysis_result = Error string | Analysis analysis

text \<open>
  The dataset is the array the upload handler passes (\<open>jsonData\<close>, initialised to \<open>[]\<close>), so
  the test \<open>!data || data.length === 0\<close> is the test for the empty list.
\<close>

definition classify :: "row list \<Rightarrow> string list" where
  "classify data = classify_keys data (object_keys (data ! 0)) []"

definition analyzeSurveyData :: "row list \<Rightarrow> analysis_result" where
  "analyzeSurveyData data =
     (if length data = 0 then Error ''No data to analyze''
      else
        (let allKeys = object_keys (data ! 0);
             numCols = classify_keys data allKeys [];
             quantitativeAnalysis = quantitative_loop data numCols Map.empty;
             txtCols = filter (\<lambda>key. key \<notin> set numCols) allKeys;
             qualitativeAnalysis = qualitative_loop data txtCols Map.empty
         in Analysis
              \<lparr> quantitative = quantitativeAnalysis,
                qualitative = qualitativeAnalysis,
                metadata = \<lparr> totalRows = length data,
                             totalColumns = length allKeys,
                             numericColumns = numCols,
                             textColumns = txtCols \<rparr> \<rparr>))"

subsection \<open>The two tests of the classifier, named\<close>

text \<open>
  Line 98: the value counts towards \<open>totalValid\<close>. Line 100: the value counts towards
  \<open>numericCount\<close>.
\<close>

definition present :: "jsval \<Rightarrow> bool" where
  "present v = (v \<noteq> Undefined \<and> v \<noteq> Null \<and> v \<noteq> Str [])"

definition numeric_like :: "jsval \<Rightarrow> bool" where
  "numeric_like v = (\<not> isNaN (parseFloat v) \<and> isFinite v)"

text \<open>The sample window: the rows the loop of line 96 reads.\<close>

definition sample_window :: "row list \<Rightarrow> row list" where
  "sample_window data = take (min (length data) 100) data"

text \<open>The dataset of the scenario: three rows with the columns \<open>age\<close> and \<open>comment\<close>.\<close>

definition scenario :: "row list" where
  "scenario =
     [[(''age'', Str ''25''), (''comment'', Str ''good'')],
      [(''age'', Str ''30''), (''comment'', Str [])],
      [(''age'', Str ''invalid''), (''comment'', Str ''great'')]]"

text \<open>A dataset of 60 rows whose column \<open>note\<close> holds 60 different non-empty strings.\<close>

definition sixty_notes :: "row list" where
  "sixty_notes = map (\<lambda>i. [(''note'', Str (replicate (Suc i) (CHR ''x'')))]) [0..<60]"

section \<open>Properties of the loops and of the number operations\<close>

lemma count_loop_drop:
  "count_loop data key i (nc, tv) =
     (nc + length (filter (\<lambda>v. present v \<and> numeric_like v)
                     (map (\<lambda>r. get_prop r key) (drop i (take 100 data)))),
      tv + length (filter present (map (\<lambda>r. get_prop r key) (drop i (take 100 data)))))"
proof (induction data key i "(nc, tv)" arbitrary: nc tv rule: count_loop.induct)
  case (1 data key i numericCount totalValid)
  show ?case
  proof (cases "i < min (length data) 100")
    case True
    then have d: "drop i (take 100 data) = data ! i # drop (Suc i) (take 100 data)"
      by (simp add: Cons_nth_drop_Suc [symmetric])
    show ?thesis
      using True 1
      by (subst count_loop.simps) (simp add: d present_def numeric_like_def Let_def)
  next
    case False
    then have "drop i (take 100 data) = []" by (auto simp: min_def)
    with False show ?thesis
      by (subst count_loop.simps) auto
  qed
qed

lemma sample_window_take: "sample_window data = take 100 data"
  by (simp add: sample_window_def min_def)

lemma count_loop_counts:
  "count_loop data key 0 (0, 0) =
     (length (filter numeric_like (filter present
                (map (\<lambda>r. get_prop r key) (sample_window data)))),
      length (filter present (map (\<lambda>r. get_prop r key) (sample_window data))))"
  by (simp add: count_loop_drop sample_window_take conj_commute)

lemma classify_keys_filter:
  "classify_keys data keys acc = acc @ filter (mostly_numeric data) keys"
  by (induction keys arbitrary: acc) auto

lemma js_le_refl: "a \<noteq> NaN \<Longrightarrow> js_le a a"
  by (cases a) (auto simp: js_le_def)

lemma js_le_trans: "js_le a b \<Longrightarrow> js_le b c \<Longrightarrow> js_le a c"
  by (cases a; cases b; cases c) (auto simp: js_le_def)

lemma js_lt_le: "js_lt a b \<Longrightarrow> js_le a b"
  by (cases a; cases b) (auto simp: js_le_def)

lemma js_le_PosInf: "js_le PosInf v \<Longrightarrow> v = PosInf"
  by (cases v) (auto simp: js_le_def)

lemma js_le_NegInf: "js_le v NegInf \<Longrightarrow> v = NegInf"
  by (cases v) (auto simp: js_le_def)

lemma compare_pos:
  "a \<noteq> NaN \<Longrightarrow> b \<noteq> NaN \<Longrightarrow> js_lt (Fin 0) (compare_fn a b) = js_lt b a"
  by (cases a; cases b) (auto simp: compare_fn_def js_sub_def)

lemma set_sort_insert: "set (sort_insert x xs) = insert x (set xs)"
  by (induction xs) auto

lemma mset_sort_insert: "mset (sort_insert x xs) = add_mset x (mset xs)"
  by (induction xs) auto

lemma mset_js_sort: "mset (js_sort xs) = mset xs"
  by (induction xs) (auto simp: js_sort_def mset_sort_insert)

lemma sorted_sort_insert:
  "x \<noteq> NaN \<Longrightarrow> NaN \<notin> set xs \<Longrightarrow> sorted_wrt js_le xs
     \<Longrightarrow> sorted_wrt js_le (sort_insert x xs)"
proof (induction xs)
  case Nil
  then show ?case by simp
next
  case (Cons y ys)
  then have y: "y \<noteq> NaN" by auto
  show ?case
  proof (cases "js_lt y x")
    case True
    then have "js_le y x" by (rule js_lt_le)
    with Cons True y show ?thesis
      by (auto simp: compare_pos set_sort_insert)
  next
    case False
    then have xy: "js_le x y" using Cons.prems(1) y by (simp add: js_le_def)
    then have "\<forall>z\<in>set ys. js_le x z"
      using Cons.prems(3) by (auto intro: js_le_trans)
    with Cons False y xy show ?thesis
      by (simp add: compare_pos)
  qed
qed

lemma sorted_js_sort: "NaN \<notin> set xs \<Longrightarrow> sorted_wrt js_le (js_sort xs)"
proof (induction xs)
  case Nil
  then show ?case by (simp add: js_sort_def)
next
  case (Cons x xs)
  have s: "set (js_sort xs) = set xs"
    using mset_js_sort [of xs] by (metis set_mset_mset)
  from Cons.prems have x: "x \<noteq> NaN" and xs: "NaN \<notin> set xs" by auto
  have "sorted_wrt js_le (sort_insert x (js_sort xs))"
    using x xs s Cons.IH by (intro sorted_sort_insert) simp_all
  then show ?case by (simp add: js_sort_def)
qed

lemma foldl_min_props:
  "m \<noteq> NaN \<Longrightarrow> NaN \<notin> set xs \<Longrightarrow>
     foldl js_min2 m xs \<in> insert m (set xs) \<and> js_le (foldl js_min2 m xs) m
       \<and> (\<forall>v\<in>set xs. js_le (foldl js_min2 m xs) v)"
proof (induction xs arbitrary: m)
  case Nil
  then show ?case by (simp add: js_le_refl)
next
  case (Cons x xs)
  let ?m = "js_min2 m x"
  from Cons.prems have x: "x \<noteq> NaN" by auto
  have m': "?m \<noteq> NaN" "?m = m \<or> ?m = x" "js_le ?m m" "js_le ?m x"
    using Cons.prems(1) x by (cases m; cases x; auto simp: js_min2_def js_le_def)+
  from Cons.IH [OF m'(1)] Cons.prems(2)
  have ih: "foldl js_min2 ?m xs \<in> insert ?m (set xs)" "js_le (foldl js_min2 ?m xs) ?m"
    "\<forall>v\<in>set xs. js_le (foldl js_min2 ?m xs) v" by auto
  show ?case
    using ih m'(2) js_le_trans [OF ih(2) m'(3)] js_le_trans [OF ih(2) m'(4)] by auto
qed

lemma foldl_max_props:
  "m \<noteq> NaN \<Longrightarrow> NaN \<notin> set xs \<Longrightarrow>
     foldl js_max2 m xs \<in> insert m (set xs) \<and> js_le m (foldl js_max2 m xs)
       \<and> (\<forall>v\<in>set xs. js_le v (foldl js_max2 m xs))"
proof (induction xs arbitrary: m)
  case Nil
  then show ?case by (simp add: js_le_refl)
next
  case (Cons x xs)
  let ?m = "js_max2 m x"
  from Cons.prems have x: "x \<noteq> NaN" by auto
  have m': "?m \<noteq> NaN" "?m = m \<or> ?m = x" "js_le m ?m" "js_le x ?m"
    using Cons.prems(1) x by (cases m; cases x; auto simp: js_max2_def js_le_def)+
  from Cons.IH [OF m'(1)] Cons.prems(2)
  have ih: "foldl js_max2 ?m xs \<in> insert ?m (set xs)" "js_le ?m (foldl js_max2 ?m xs)"
    "\<forall>v\<in>set xs. js_le v (foldl js_max2 ?m xs)" by auto
  show ?case
    using ih m'(2) js_le_trans [OF m'(3) ih(2)] js_le_trans [OF m'(4) ih(2)] by auto
qed

lemma math_min_least:
  assumes "xs \<noteq> []" "NaN \<notin> set xs"
  shows "math_min xs \<in> set xs \<and> (\<forall>v\<in>set xs. js_le (math_min xs) v)"
proof -
  from foldl_min_props [of PosInf xs] assms(2)
  have p: "math_min xs \<in> insert PosInf (set xs)" "\<forall>v\<in>set xs. js_le (math_min xs) v"
    by (auto simp: math_min_def)
  obtain x where x: "x \<in> set xs" using assms(1) by (cases xs) auto
  have "math_min xs \<in> set xs"
  proof (cases "math_min xs = PosInf")
    case True
    with p(2) x have "x = PosInf" by (auto dest: js_le_PosInf)
    with x True show ?thesis by simp
  next
    case False
    with p(1) show ?thesis by simp
  qed
  with p(2) show ?thesis by simp
qed

lemma math_max_greatest:
  assumes "xs \<noteq> []" "NaN \<notin> set xs"
  shows "math_max xs \<in> set xs \<and> (\<forall>v\<in>set xs. js_le v (math_max xs))"
proof -
  from foldl_max_props [of NegInf xs] assms(2)
  have p: "math_max xs \<in> insert NegInf (set xs)" "\<forall>v\<in>set xs. js_le v (math_max xs)"
    by (auto simp: math_max_def)
  obtain x where x: "x \<in> set xs" using assms(1) by (cases xs) auto
  have "math_max xs \<in> set xs"
  proof (cases "math_max xs = NegInf")
    case True
    with p(2) x have "x = NegInf" by (auto dest: js_le_NegInf)
    with x True show ?thesis by simp
  next
    case False
    with p(1) show ?thesis by simp
  qed
  with p(2) show ?thesis by simp
qed

lemma foldl_js_add_Fin: "foldl js_add (Fin s) (map Fin qs) = Fin (s + sum_list qs)"
  by (induction qs arbitrary: s) (auto simp: add.assoc)

lemma quantitative_loop_lookup:
  "quantitative_loop data cols qa column =
     (if column \<in> set cols \<and> column_values data column \<noteq> []
      then Some (stats_of (column_values data column)) else qa column)"
  by (induction cols arbitrary: qa) (auto simp: Let_def)

lemma qualitative_loop_lookup:
  "qualitative_loop data cols qa column =
     (if column \<in> set cols
      then Some \<lparr> totalEntries = length data,
                  nonEmptyEntries = length (column_comments data column),
                  sampleComments = take 10 (column_comments data column) \<rparr>
      else qa column)"
  by (induction cols arbitrary: qa) (auto simp: Let_def)

lemma classify_filter: "classify data = filter (mostly_numeric data) (object_keys (data ! 0))"
  by (simp add: classify_def classify_keys_filter)

lemma analysis_fields:
  assumes "analyzeSurveyData data = Analysis a"
  shows "data \<noteq> []"
    and "numericColumns (metadata a) = classify data"
    and "textColumns (metadata a) =
           filter (\<lambda>key. key \<notin> set (classify data)) (object_keys (data ! 0))"
    and "quantitative a = quantitative_loop data (classify data) Map.empty"
    and "qualitative a = qualitative_loop data (textColumns (metadata a)) Map.empty"
  using assms
  by (auto simp: analyzeSurveyData_def classify_def Let_def split: if_splits)

lemma text_columns_filter:
  assumes "analyzeSurveyData data = Analysis a"
  shows "textColumns (metadata a) =
           filter (\<lambda>key. \<not> mostly_numeric data key) (object_keys (data ! 0))"
  unfolding analysis_fields(3) [OF assms] classify_filter
  by (rule filter_cong) auto

lemma mostly_numeric_counts:
  "mostly_numeric data key \<longleftrightarrow>
     0 < snd (count_loop data key 0 (0, 0))
     \<and> (of_nat (fst (count_loop data key 0 (0, 0))) :: rat)
          / of_nat (snd (count_loop data key 0 (0, 0))) \<ge> 1 / 2"
  by (simp add: mostly_numeric_def Let_def split: prod.splits)

lemma nonempty_analysis: "data \<noteq> [] \<Longrightarrow> \<exists>a. analyzeSurveyData data = Analysis a"
  by (simp add: analyzeSurveyData_def Let_def)

lemma column_values_no_NaN: "NaN \<notin> set (column_values data column)"
  by (simp add: column_values_def isNaN_def)

lemma parseFloat_non_numeric:
  assumes "case trim_start s of [] \<Rightarrow> True | c # cs \<Rightarrow> \<not> is_digit c \<and> c \<notin> set ''+-.I''"
  shows "parseFloat (Str s) = NaN"
proof (cases "trim_start s")
  case Nil
  then show ?thesis
    by (simp add: parseFloat_string_def scan_decimal_def scan_unsigned_def)
next
  case (Cons c cs)
  with assms have c: "\<not> is_digit c" "c \<noteq> CHR ''+''" "c \<noteq> CHR ''-''" "c \<noteq> CHR ''.''"
    "c \<noteq> CHR ''I''" by auto
  from c(5) have i: "take 8 (c # cs) \<noteq> ''Infinity''" by auto
  have u: "scan_unsigned (c # cs) = None"
    using c(1,4) by (simp add: scan_unsigned_def)
  show ?thesis
    using c(2,3) i u by (simp add: parseFloat_string_def Cons scan_decimal_def)
qed

lemma get_prop_missing:
  assumes "column \<notin> set (object_keys r)"
  shows "get_prop r column = Undefined"
proof -
  have "map_of r column = None"
    using assms by (simp add: object_keys_def map_of_eq_None_iff)
  then show ?thesis by (simp add: get_prop_def)
qed

lemma parseFloat_missing: "parseFloat Undefined = NaN \<and> parseFloat Null = NaN"
  by code_simp



section \<open>The claims\<close>

text \<open>
  C1, as amended. A present, non-empty value of the sample window is counted in
  \<open>numericCount\<close> exactly when it passes the test of line 100: \<open>parseFloat(value)\<close> is not
  \<open>NaN\<close> and \<open>isFinite(value)\<close>, the conversion of the whole value by \<open>Number\<close>, is finite.
  The string \<open>25\<close> and the number 25 pass; \<open>12abc\<close> does not: its prefix parses to 12, its
  whole does not convert.
\<close>

theorem numeric_evidence_needs_whole_value:
  "fst (count_loop data key 0 (0, 0)) =
     length (filter (\<lambda>v. present v \<and> parseFloat v \<noteq> NaN \<and> to_number v \<notin> {NaN, NegInf, PosInf})
               (map (\<lambda>r. get_prop r key) (sample_window data)))
   \<and> numeric_like (Str ''25'') \<and> numeric_like (Num (Fin 25))
   \<and> parseFloat (Str ''12abc'') = Fin 12 \<and> to_number (Str ''12abc'') = NaN
   \<and> \<not> numeric_like (Str ''12abc'')"
proof -
  have t: "numeric_like v \<longleftrightarrow> parseFloat v \<noteq> NaN \<and> to_number v \<notin> {NaN, NegInf, PosInf}" for v
    by (cases "to_number v") (auto simp: numeric_like_def isNaN_def isFinite_def)
  have "fst (count_loop data key 0 (0, 0)) =
          length (filter (\<lambda>v. present v \<and> numeric_like v)
                    (map (\<lambda>r. get_prop r key) (sample_window data)))"
    by (simp add: count_loop_counts conj_commute)
  moreover have "numeric_like (Str ''25'')" by code_simp
  moreover have "numeric_like (Num (Fin 25))" by code_simp
  moreover have "parseFloat (Str ''12abc'') = Fin 12" by code_simp
  moreover have "to_number (Str ''12abc'') = NaN" by code_simp
  moreover have "\<not> numeric_like (Str ''12abc'')" by code_simp
  ultimately show ?thesis by (simp add: t)
qed

theorem numeric_evidence_needs_whole_value_witness:
  "fst (count_loop scenario ''age'' 0 (0, 0)) = 2"
proof -
  have "length (filter (\<lambda>v. present v \<and> parseFloat v \<noteq> NaN
                           \<and> to_number v \<notin> {NaN, NegInf, PosInf})
                  (map (\<lambda>r. get_prop r ''age'') (sample_window scenario))) = 2"
    by code_simp
  with numeric_evidence_needs_whole_value [of scenario "''age''"] show ?thesis by simp
qed

text \<open>
  C1 as stated fails: the string form of \<open>12abc\<close> is present, non-empty and has a leading
  numeric prefix that parses to the finite number 12, and the classifier does not count it.
\<close>

theorem prefix_only_string_not_counted:
  "present (Str ''12abc'') \<and> parseFloat (Str ''12abc'') = Fin 12
   \<and> count_loop [[(''id'', Str ''12abc'')]] ''id'' 0 (0, 0) = (0, 1)"
  by code_simp

text \<open>
  C2. For a column of a non-empty dataset, the loop reads the first
  \<open>min(rowCount, 100)\<close> rows; \<open>totalValid\<close> is the number of sampled values that are present
  (not \<open>undefined\<close>, \<open>null\<close> or the empty string) and \<open>numericCount\<close> the number of those that
  pass the classifier's numeric test. The column is listed as numeric iff
  \<open>totalValid > 0\<close> and \<open>numericCount / totalValid >= 0.5\<close>, and as text otherwise, in
  particular when \<open>totalValid = 0\<close>.
\<close>

theorem classification_rule:
  assumes "analyzeSurveyData data = Analysis a"
    and "key \<in> set (object_keys (data ! 0))"
    and "sampled = map (\<lambda>r. get_prop r key) (take (min (length data) 100) data)"
    and "totalValid = length (filter present sampled)"
    and "numericCount = length (filter numeric_like (filter present sampled))"
  shows "count_loop data key 0 (0, 0) = (numericCount, totalValid)
     \<and> (key \<in> set (numericColumns (metadata a)) \<longleftrightarrow>
          totalValid > 0 \<and> (of_nat numericCount :: rat) / of_nat totalValid \<ge> 1 / 2)
     \<and> (key \<in> set (textColumns (metadata a)) \<longleftrightarrow>
          \<not> (totalValid > 0 \<and> (of_nat numericCount :: rat) / of_nat totalValid \<ge> 1 / 2))
     \<and> (totalValid = 0 \<longrightarrow> key \<in> set (textColumns (metadata a)))"
proof -
  have c: "count_loop data key 0 (0, 0) = (numericCount, totalValid)"
    using assms(3-5) by (simp add: count_loop_counts sample_window_def)
  have m: "mostly_numeric data key \<longleftrightarrow>
             totalValid > 0 \<and> (of_nat numericCount :: rat) / of_nat totalValid \<ge> 1 / 2"
    by (simp add: mostly_numeric_counts c)
  have n: "key \<in> set (numericColumns (metadata a)) \<longleftrightarrow> mostly_numeric data key"
    using assms(2) by (simp add: analysis_fields(2) [OF assms(1)] classify_filter)
  have t: "key \<in> set (textColumns (metadata a)) \<longleftrightarrow> \<not> mostly_numeric data key"
    using assms(2) by (simp add: text_columns_filter [OF assms(1)])
  show ?thesis using c m n t by auto
qed

theorem classification_rule_witness:
  "\<exists>a. analyzeSurveyData scenario = Analysis a
       \<and> count_loop scenario ''age'' 0 (0, 0) = (2, 3)
       \<and> ''age'' \<in> set (numericColumns (metadata a))
       \<and> ''age'' \<notin> set (textColumns (metadata a))"
proof -
  have "scenario \<noteq> []" by (simp add: scenario_def)
  then obtain a where a: "analyzeSurveyData scenario = Analysis a"
    using nonempty_analysis by blast
  have k: "''age'' \<in> set (object_keys (scenario ! 0))"
    by (simp add: scenario_def object_keys_def)
  let ?sampled = "map (\<lambda>r. get_prop r ''age'') (take (min (length scenario) 100) scenario)"
  have tv: "length (filter present ?sampled) = 3" by code_simp
  have nc: "length (filter numeric_like (filter present ?sampled)) = 2" by code_simp
  from classification_rule [OF a k refl refl refl] a show ?thesis
    unfolding tv nc by auto
qed

text \<open>
  C3. For a non-empty dataset the two lists of the metadata have no column in common,
  together hold exactly the keys of the first row, and each is the first row's key list
  with some keys left out, the order kept; counted with multiplicity, the two lists together
  are the key list, so their concatenation holds every column once.
\<close>

theorem columns_partition:
  assumes "analyzeSurveyData data = Analysis a"
    and "allKeys = object_keys (data ! 0)"
    and "nums = numericColumns (metadata a)"
    and "txts = textColumns (metadata a)"
  shows "set nums \<inter> set txts = {}
     \<and> set nums \<union> set txts = set allKeys
     \<and> nums = filter (\<lambda>k. k \<in> set nums) allKeys
     \<and> txts = filter (\<lambda>k. k \<in> set txts) allKeys
     \<and> mset nums + mset txts = mset allKeys
     \<and> (distinct allKeys \<longrightarrow> distinct (nums @ txts))"
proof -
  have n: "nums = filter (mostly_numeric data) allKeys"
    using assms by (simp add: analysis_fields(2) classify_filter)
  have t: "txts = filter (\<lambda>k. \<not> mostly_numeric data k) allKeys"
    using assms by (simp add: text_columns_filter)
  have 1: "set nums \<inter> set txts = {}" unfolding n t by auto
  have 2: "set nums \<union> set txts = set allKeys" unfolding n t by auto
  have 3: "nums = filter (\<lambda>k. k \<in> set nums) allKeys"
    unfolding n by (rule filter_cong) auto
  have 4: "txts = filter (\<lambda>k. k \<in> set txts) allKeys"
    unfolding t by (rule filter_cong) auto
  have 5: "mset nums + mset txts = mset allKeys"
    unfolding n t by (induction allKeys) auto
  have 6: "distinct allKeys \<longrightarrow> distinct (nums @ txts)"
    unfolding n t by auto
  from 1 2 3 4 5 6 show ?thesis by blast
qed

theorem columns_partition_witness:
  "\<exists>a. analyzeSurveyData scenario = Analysis a
       \<and> numericColumns (metadata a) = [''age'']
       \<and> textColumns (metadata a) = [''comment'']
       \<and> distinct (numericColumns (metadata a) @ textColumns (metadata a))"
proof -
  have "scenario \<noteq> []" by (simp add: scenario_def)
  then obtain a where a: "analyzeSurveyData scenario = Analysis a"
    using nonempty_analysis by blast
  have k: "object_keys (scenario ! 0) = [''age'', ''comment'']"
    by (simp add: scenario_def object_keys_def)
  have n: "numericColumns (metadata a) = [''age'']"
    unfolding analysis_fields(2) [OF a] by code_simp
  have t: "textColumns (metadata a) = [''comment'']"
    unfolding analysis_fields(3) [OF a] by code_simp
  from columns_partition [OF a refl refl refl] a n t show ?thesis
    by (simp add: k)
qed

text \<open>
  C8. The result is the error object with the message \<open>No data to analyze\<close> exactly when
  the dataset has no row; no other error object is ever returned, and that result is fixed
  before any column is looked at. For a dataset with at least one row the result is the
  object with the fields \<open>quantitative\<close>, \<open>qualitative\<close> and \<open>metadata\<close>.
\<close>

theorem empty_dataset_error:
  "(analyzeSurveyData data = Error ''No data to analyze'' \<longleftrightarrow> data = [])
   \<and> (analyzeSurveyData data = Error e \<longrightarrow> e = ''No data to analyze'' \<and> data = [])
   \<and> (data \<noteq> [] \<longrightarrow> (\<exists>a. analyzeSurveyData data = Analysis a))"
  by (auto simp: analyzeSurveyData_def Let_def)

theorem empty_dataset_error_witness:
  "analyzeSurveyData [] = Error ''No data to analyze''
   \<and> (\<exists>a. analyzeSurveyData scenario = Analysis a)"
proof -
  have "scenario \<noteq> []" by (simp add: scenario_def)
  with empty_dataset_error [of "[]" "''No data to analyze''"]
    empty_dataset_error [of scenario "[]"]
  show ?thesis by simp
qed

text \<open>
  C4. For a column listed as numeric, the engine converts the column's value of every row
  of the dataset with \<open>parseFloat\<close> and drops the rows where the conversion gives \<open>NaN\<close>.
  The conversion gives \<open>NaN\<close> for a missing value (the key is absent, or the value is
  \<open>null\<close>) and for a string that, after leading white space, is empty or starts with a
  character that can start no number. When values remain, the entry of the column reports
  their number as \<open>count\<close>, their sum, added from 0 in row order with the code's
  \<open>+\<close>, as \<open>sum\<close>, \<open>sum / count\<close> as \<open>average\<close>, and a least and a greatest of the values
  as \<open>min\<close> and \<open>max\<close>. When the values are integers and they and all the partial sums lie
  within \<open>2^53\<close> in absolute value, where the addition of doubles is exact, \<open>sum\<close> is their
  integer sum. For the ages \<open>25\<close>, \<open>30\<close>, \<open>invalid\<close> the entry is count 2, sum 55, average
  27.5, min 25, max 30, median 27.5.
\<close>

theorem numeric_statistics:
  assumes "analyzeSurveyData data = Analysis a"
    and "column \<in> set (numericColumns (metadata a))"
    and "vals = filter (\<lambda>x. x \<noteq> NaN) (map (\<lambda>r. parseFloat (get_prop r column)) data)"
    and "vals \<noteq> []"
  shows "(\<exists>st. quantitative a column = Some st
           \<and> count_stat st = length vals
           \<and> sum_stat st = foldl js_add (Fin 0) vals
           \<and> average st = js_div (sum_stat st) (Fin (of_nat (count_stat st)))
           \<and> min_stat st \<in> set vals \<and> (\<forall>v\<in>set vals. js_le (min_stat st) v)
           \<and> max_stat st \<in> set vals \<and> (\<forall>v\<in>set vals. js_le v (max_stat st))
           \<and> (\<forall>zs. vals = map (\<lambda>z. Fin (of_int z)) zs
                    \<and> (\<forall>z\<in>set zs. \<bar>z\<bar> \<le> 2 ^ 53)
                    \<and> (\<forall>k\<le>length zs. \<bar>sum_list (take k zs)\<bar> \<le> 2 ^ 53)
                  \<longrightarrow> sum_stat st = Fin (of_int (sum_list zs))))
     \<and> vals = map (\<lambda>r. parseFloat (get_prop r column))
                (filter (\<lambda>r. parseFloat (get_prop r column) \<noteq> NaN) data)
     \<and> (\<forall>r. column \<notin> set (object_keys r) \<longrightarrow> parseFloat (get_prop r column) = NaN)
     \<and> parseFloat Undefined = NaN \<and> parseFloat Null = NaN
     \<and> (\<forall>s. (case trim_start s of [] \<Rightarrow> True
                | c # cs \<Rightarrow> \<not> is_digit c \<and> c \<notin> set ''+-.I'')
            \<longrightarrow> parseFloat (Str s) = NaN)
     \<and> (case analyzeSurveyData scenario of
          Error e \<Rightarrow> False
        | Analysis b \<Rightarrow>
            quantitative b ''age'' =
              Some \<lparr> count_stat = 2, sum_stat = Fin 55, average = Fin (55 / 2),
                     min_stat = Fin 25, max_stat = Fin 30, median = Fin (55 / 2) \<rparr>)"
proof -
  have v: "vals = column_values data column"
    using assms(3) by (simp add: column_values_def isNaN_def)
  have nn: "NaN \<notin> set vals" using assms(3) by simp
  let ?st = "stats_of vals"
  have e: "quantitative a column = Some ?st"
    using assms(2,4) v
    by (simp add: analysis_fields(4) [OF assms(1)] analysis_fields(2) [OF assms(1)]
          quantitative_loop_lookup)
  have c: "count_stat ?st = length vals" by (simp add: stats_of_def Let_def)
  have s: "sum_stat ?st = foldl js_add (Fin 0) vals" by (simp add: stats_of_def Let_def)
  have av: "average ?st = js_div (sum_stat ?st) (Fin (of_nat (count_stat ?st)))"
    by (simp add: stats_of_def Let_def)
  have mn: "min_stat ?st \<in> set vals \<and> (\<forall>v\<in>set vals. js_le (min_stat ?st) v)"
    using math_min_least [OF assms(4) nn] by (simp add: stats_of_def Let_def)
  have mx: "max_stat ?st \<in> set vals \<and> (\<forall>v\<in>set vals. js_le v (max_stat ?st))"
    using math_max_greatest [OF assms(4) nn] by (simp add: stats_of_def Let_def)
  have f: "sum_stat ?st = Fin (of_int (sum_list zs))"
    if "vals = map (\<lambda>z. Fin (of_int z)) zs" for zs :: "int list"
  proof -
    have "vals = map Fin (map of_int zs)" using that by simp
    then have "foldl js_add (Fin 0) vals = Fin (sum_list (map of_int zs))"
      by (simp only: foldl_js_add_Fin add_0)
    also have "sum_list (map of_int zs) = (of_int (sum_list zs) :: rat)"
      by (induction zs) simp_all
    finally show ?thesis unfolding s .
  qed
  have g: "\<exists>st. quantitative a column = Some st
           \<and> count_stat st = length vals
           \<and> sum_stat st = foldl js_add (Fin 0) vals
           \<and> average st = js_div (sum_stat st) (Fin (of_nat (count_stat st)))
           \<and> min_stat st \<in> set vals \<and> (\<forall>v\<in>set vals. js_le (min_stat st) v)
           \<and> max_stat st \<in> set vals \<and> (\<forall>v\<in>set vals. js_le v (max_stat st))
           \<and> (\<forall>zs. vals = map (\<lambda>z. Fin (of_int z)) zs
                    \<and> (\<forall>z\<in>set zs. \<bar>z\<bar> \<le> 2 ^ 53)
                    \<and> (\<forall>k\<le>length zs. \<bar>sum_list (take k zs)\<bar> \<le> 2 ^ 53)
                  \<longrightarrow> sum_stat st = Fin (of_int (sum_list zs)))"
    using e c s av mn mx f by blast
  have d1: "vals = map (\<lambda>r. parseFloat (get_prop r column))
                     (filter (\<lambda>r. parseFloat (get_prop r column) \<noteq> NaN) data)"
    unfolding assms(3) by (simp add: filter_map comp_def)
  have d2: "\<forall>r. column \<notin> set (object_keys r) \<longrightarrow> parseFloat (get_prop r column) = NaN"
    using parseFloat_missing by (simp add: get_prop_missing)
  have d4: "\<forall>s. (case trim_start s of [] \<Rightarrow> True
                   | c # cs \<Rightarrow> \<not> is_digit c \<and> c \<notin> set ''+-.I'')
               \<longrightarrow> parseFloat (Str s) = NaN"
    using parseFloat_non_numeric by blast
  have ex: "case analyzeSurveyData scenario of
              Error e \<Rightarrow> False
            | Analysis b \<Rightarrow>
                quantitative b ''age'' =
                  Some \<lparr> count_stat = 2, sum_stat = Fin 55, average = Fin (55 / 2),
                         min_stat = Fin 25, max_stat = Fin 30, median = Fin (55 / 2) \<rparr>"
    by code_simp
  from g d1 d2 parseFloat_missing d4 ex show ?thesis by (intro conjI) blast+
qed

theorem numeric_statistics_witness:
  "\<exists>a st. analyzeSurveyData scenario = Analysis a
     \<and> ''age'' \<in> set (numericColumns (metadata a))
     \<and> quantitative a ''age'' = Some st
     \<and> count_stat st = 2 \<and> sum_stat st = Fin 55
     \<and> min_stat st \<in> {Fin 25, Fin 30} \<and> js_le (min_stat st) (Fin 25)
     \<and> max_stat st \<in> {Fin 25, Fin 30} \<and> js_le (Fin 30) (max_stat st)
     \<and> parseFloat (get_prop [(''comment'', Str ''good'')] ''age'') = NaN
     \<and> parseFloat (Str ''invalid'') = NaN"
proof -
  have "scenario \<noteq> []" by (simp add: scenario_def)
  then obtain a where a: "analyzeSurveyData scenario = Analysis a"
    using nonempty_analysis by blast
  have k: "''age'' \<in> set (numericColumns (metadata a))"
    unfolding analysis_fields(2) [OF a] by code_simp
  let ?vals = "filter (\<lambda>x. x \<noteq> NaN) (map (\<lambda>r. parseFloat (get_prop r ''age'')) scenario)"
  have v: "?vals = map (\<lambda>z. Fin (of_int z)) [25, 30]" by code_simp
  then have ne: "?vals \<noteq> []" by simp
  have b1: "\<forall>z\<in>set [25, 30 :: int]. \<bar>z\<bar> \<le> 2 ^ 53" by simp
  have b2: "\<forall>k\<le>length [25, 30 :: int]. \<bar>sum_list (take k [25, 30 :: int])\<bar> \<le> 2 ^ 53"
  proof (intro allI impI)
    fix k :: nat
    assume "k \<le> length [25, 30 :: int]"
    then have "k = 0 \<or> k = 1 \<or> k = 2" by auto
    then show "\<bar>sum_list (take k [25, 30 :: int])\<bar> \<le> 2 ^ 53" by auto
  qed
  have m: "''age'' \<notin> set (object_keys [(''comment'', Str ''good'')])"
    by (simp add: object_keys_def)
  have t: "case trim_start ''invalid'' of [] \<Rightarrow> True
           | c # cs \<Rightarrow> \<not> is_digit c \<and> c \<notin> set ''+-.I''"
    by code_simp
  note n = numeric_statistics [OF a k refl ne]
  from n obtain st where st: "quantitative a ''age'' = Some st"
    "count_stat st = length ?vals"
    "min_stat st \<in> set ?vals" "\<forall>v\<in>set ?vals. js_le (min_stat st) v"
    "max_stat st \<in> set ?vals" "\<forall>v\<in>set ?vals. js_le v (max_stat st)"
    "\<forall>zs. ?vals = map (\<lambda>z. Fin (of_int z)) zs
            \<and> (\<forall>z\<in>set zs. \<bar>z\<bar> \<le> 2 ^ 53)
            \<and> (\<forall>k\<le>length zs. \<bar>sum_list (take k zs)\<bar> \<le> 2 ^ 53)
          \<longrightarrow> sum_stat st = Fin (of_int (sum_list zs))"
    by blast
  from st(7) [rule_format, of "[25, 30]"] v b1 b2 have su: "sum_stat st = Fin 55" by simp
  from n m have p1: "parseFloat (get_prop [(''comment'', Str ''good'')] ''age'') = NaN"
    by blast
  from n t have p2: "parseFloat (Str ''invalid'') = NaN" by blast
  from a k st(1-6) su p1 p2 show ?thesis unfolding v by auto
qed

text \<open>
  C5. For a non-empty list of parsed values (none is \<open>NaN\<close>), the reported median is read
  from the values sorted in ascending order: the element at index \<open>count div 2\<close> when the
  count is odd, half the sum of the elements at indices \<open>count div 2 - 1\<close> and \<open>count div 2\<close>
  when it is even. The median of 1, 2, 3 is 2 and the median of 1, 2, 3, 4 is 2.5. The
  median of an entry of \<open>quantitative\<close> is the median of the column's parsed values.
\<close>

theorem median_rule:
  assumes "vals \<noteq> []"
    and "NaN \<notin> set vals"
    and "n = length vals"
  shows "(\<exists>s. sorted_wrt js_le s \<and> mset s = mset vals
            \<and> median (stats_of vals) =
                (if odd n then s ! (n div 2)
                 else js_div (js_add (s ! (n div 2 - 1)) (s ! (n div 2))) (Fin 2)))
     \<and> median (stats_of [Fin 1, Fin 2, Fin 3]) = Fin 2
     \<and> median (stats_of [Fin 1, Fin 2, Fin 3, Fin 4]) = Fin (5 / 2)
     \<and> (\<forall>data a column st.
           analyzeSurveyData data = Analysis a \<and> quantitative a column = Some st
           \<longrightarrow> median st = median (stats_of (column_values data column)))"
proof -
  let ?s = "js_sort vals"
  have l: "length ?s = n"
    using mset_js_sort [of vals] assms(3) by (metis size_mset)
  have m: "median (stats_of vals) =
             (if odd n then ?s ! (n div 2)
              else js_div (js_add (?s ! (n div 2 - 1)) (?s ! (n div 2))) (Fin 2))"
    by (simp add: stats_of_def median_of_def Let_def l even_iff_mod_2_eq_zero)
  have 1: "\<exists>s. sorted_wrt js_le s \<and> mset s = mset vals
            \<and> median (stats_of vals) =
                (if odd n then s ! (n div 2)
                 else js_div (js_add (s ! (n div 2 - 1)) (s ! (n div 2))) (Fin 2))"
    using sorted_js_sort [OF assms(2)] mset_js_sort [of vals] m by blast
  have 2: "median (stats_of [Fin 1, Fin 2, Fin 3]) = Fin 2" by code_simp
  have 3: "median (stats_of [Fin 1, Fin 2, Fin 3, Fin 4]) = Fin (5 / 2)" by code_simp
  have 4: "median st = median (stats_of (column_values data column))"
    if "analyzeSurveyData data = Analysis a \<and> quantitative a column = Some st"
    for data a column st
    using that
    by (auto simp: analysis_fields(4) quantitative_loop_lookup split: if_splits)
  from 1 2 3 4 show ?thesis by blast
qed

theorem median_rule_witness:
  "\<exists>s. sorted_wrt js_le s \<and> mset s = mset [Fin 30, Fin 10, Fin 40, Fin 20]
       \<and> median (stats_of [Fin 30, Fin 10, Fin 40, Fin 20])
           = js_div (js_add (s ! 1) (s ! 2)) (Fin 2)"
proof -
  have "[Fin 30, Fin 10, Fin 40, Fin 20] \<noteq> [] \<and> NaN \<notin> set [Fin 30, Fin 10, Fin 40, Fin 20]"
    by simp
  with median_rule [of "[Fin 30, Fin 10, Fin 40, Fin 20]" 4] show ?thesis by simp
qed

text \<open>
  C6. For a column listed as text, \<open>totalEntries\<close> is the number of rows of the dataset,
  \<open>nonEmptyEntries\<close> is the number of values that pass the filter of line 148, cut at 50
  (so 50, not the true number, when more than 50 pass), and \<open>sampleComments\<close> holds the
  first \<open>min(10, nonEmptyEntries)\<close> of the passing values in row order.
\<close>

theorem qualitative_summary_rule:
  assumes "analyzeSurveyData data = Analysis a"
    and "column \<in> set (textColumns (metadata a))"
    and "survivors = filter keeps_comment (map (\<lambda>r. get_prop r column) data)"
  shows "\<exists>q. qualitative a column = Some q
           \<and> totalEntries q = length data
           \<and> nonEmptyEntries q = min 50 (length survivors)
           \<and> sampleComments q = take (min 10 (nonEmptyEntries q)) survivors
           \<and> length (sampleComments q) \<le> 10 \<and> nonEmptyEntries q \<le> 50"
proof -
  have c: "column_comments data column = take 50 survivors"
    using assms(3) by (simp add: column_comments_def)
  let ?q = "\<lparr> totalEntries = length data,
              nonEmptyEntries = length (column_comments data column),
              sampleComments = take 10 (column_comments data column) \<rparr>"
  have e: "qualitative a column = Some ?q"
    using assms(2) by (simp add: analysis_fields(5) [OF assms(1)] qualitative_loop_lookup)
  have n: "nonEmptyEntries ?q = min 50 (length survivors)"
    unfolding c by (simp add: min_def)
  have "take 10 (take 50 survivors) = take (min 10 (min 50 (length survivors))) survivors"
    by (cases "10 \<le> length survivors") (simp_all add: min_def)
  then have s: "sampleComments ?q = take (min 10 (nonEmptyEntries ?q)) survivors"
    unfolding n unfolding c by simp
  have b: "length (sampleComments ?q) \<le> 10" "nonEmptyEntries ?q \<le> 50"
    unfolding c by simp_all
  have t: "totalEntries ?q = length data" by simp
  from e t n s b show ?thesis by blast
qed

theorem qualitative_summary_rule_witness:
  "\<exists>a q. analyzeSurveyData sixty_notes = Analysis a
     \<and> ''note'' \<in> set (textColumns (metadata a))
     \<and> qualitative a ''note'' = Some q
     \<and> totalEntries q = 60 \<and> nonEmptyEntries q = 50
     \<and> sampleComments q = map (\<lambda>i. Str (replicate (Suc i) (CHR ''x''))) [0..<10]"
proof -
  define survivors where
    "survivors = filter keeps_comment (map (\<lambda>r. get_prop r ''note'') sixty_notes)"
  have "sixty_notes \<noteq> []" by code_simp
  then obtain a where a: "analyzeSurveyData sixty_notes = Analysis a"
    using nonempty_analysis by blast
  have k: "''note'' \<in> set (textColumns (metadata a))"
    unfolding analysis_fields(3) [OF a] by code_simp
  have d: "length sixty_notes = 60" by code_simp
  have l: "length survivors = 60" unfolding survivors_def by code_simp
  have t: "take 10 survivors = map (\<lambda>i. Str (replicate (Suc i) (CHR ''x''))) [0..<10]"
    unfolding survivors_def by code_simp
  from qualitative_summary_rule [OF a k survivors_def]
  obtain q where "qualitative a ''note'' = Some q
      \<and> totalEntries q = length sixty_notes
      \<and> nonEmptyEntries q = min 50 (length survivors)
      \<and> sampleComments q = take (min 10 (nonEmptyEntries q)) survivors
      \<and> length (sampleComments q) \<le> 10 \<and> nonEmptyEntries q \<le> 50" ..
  then have q: "qualitative a ''note'' = Some q" "totalEntries q = length sixty_notes"
    "nonEmptyEntries q = min 50 (length survivors)"
    "sampleComments q = take (min 10 (nonEmptyEntries q)) survivors"
    by simp_all
  from q(3) l have n: "nonEmptyEntries q = 50" by simp
  from q(4) have sc: "sampleComments q = take 10 survivors" unfolding n by simp
  from q(2) d have te: "totalEntries q = 60" by simp
  from a k q(1) te n sc [unfolded t] show ?thesis by blast
qed

text \<open>
  C7 fails on the code for the number 0. Its string form is not empty after trimming, and
  the classifier counts it as a present value, but the sampler's filter tests the truthiness
  of the value first, and 0 is falsy: in a text column holding \<open>good\<close>, 0, \<open>bad\<close> the sample
  is \<open>good\<close>, \<open>bad\<close>.
\<close>

theorem zero_dropped_from_comments:
  "present (Num (Fin 0)) \<and> string_trim_nonempty (Num (Fin 0)) \<and> \<not> keeps_comment (Num (Fin 0))
   \<and> (case analyzeSurveyData
              [[(''note'', Str ''good'')], [(''note'', Num (Fin 0))], [(''note'', Str ''bad'')]] of
         Error e \<Rightarrow> False
       | Analysis a \<Rightarrow>
           textColumns (metadata a) = [''note'']
           \<and> map_option sampleComments (qualitative a ''note'') = Some [Str ''good'', Str ''bad'']
           \<and> map_option nonEmptyEntries (qualitative a ''note'') = Some 2)"
  by code_simp




text \<open>
  C10. A column listed as numeric has an entry in \<open>quantitative\<close>. Some row of the sample
  window holds a value of the column that passes the classifier's numeric test; the rows of
  the window are rows of the dataset; a value that passes the test is not turned into \<open>NaN\<close>
  by \<open>parseFloat\<close>; so the engine's list of values is not empty and the entry is stored,
  with a positive count.
\<close>

theorem numeric_column_has_entry:
  assumes "analyzeSurveyData data = Analysis a"
    and "column \<in> set (numericColumns (metadata a))"
  shows "(\<exists>r\<in>set (sample_window data). numeric_like (get_prop r column))
     \<and> set (sample_window data) \<subseteq> set data
     \<and> (\<forall>v. numeric_like v \<longrightarrow> \<not> isNaN (parseFloat v))
     \<and> column_values data column \<noteq> []
     \<and> (\<exists>st. quantitative a column = Some st \<and> 0 < count_stat st)"
proof -
  have m: "mostly_numeric data column"
    using assms(2) by (simp add: analysis_fields(2) [OF assms(1)] classify_filter)
  let ?sampled = "map (\<lambda>r. get_prop r column) (sample_window data)"
  let ?nc = "length (filter numeric_like (filter present ?sampled))"
  have "?nc \<noteq> 0"
  proof
    assume "?nc = 0"
    with m show False
      by (simp add: mostly_numeric_counts count_loop_counts)
  qed
  then have "filter numeric_like (filter present ?sampled) \<noteq> []"
    by (metis list.size(3))
  then obtain v where "v \<in> set (filter numeric_like (filter present ?sampled))"
    using hd_in_set by blast
  then obtain r where r: "r \<in> set (sample_window data)" "numeric_like (get_prop r column)"
    by auto
  have sub: "set (sample_window data) \<subseteq> set data"
    by (simp add: sample_window_def set_take_subset)
  have p: "\<not> isNaN (parseFloat v)" if "numeric_like v" for v
    using that by (simp add: numeric_like_def)
  have "parseFloat (get_prop r column) \<in> set (column_values data column)"
    using r sub p [OF r(2)] by (auto simp: column_values_def)
  then have ne: "column_values data column \<noteq> []" by auto
  have "quantitative a column = Some (stats_of (column_values data column))"
    using assms(2) ne
    by (simp add: analysis_fields(4) [OF assms(1)] analysis_fields(2) [OF assms(1)]
          quantitative_loop_lookup)
  moreover have "0 < count_stat (stats_of (column_values data column))"
    using ne by (simp add: stats_of_def Let_def)
  ultimately show ?thesis using r sub p ne by blast
qed

theorem numeric_column_has_entry_witness:
  "\<exists>a st. analyzeSurveyData scenario = Analysis a
     \<and> ''age'' \<in> set (numericColumns (metadata a))
     \<and> quantitative a ''age'' = Some st \<and> 0 < count_stat st"
proof -
  have "scenario \<noteq> []" by (simp add: scenario_def)
  then obtain a where a: "analyzeSurveyData scenario = Analysis a"
    using nonempty_analysis by blast
  have k: "''age'' \<in> set (numericColumns (metadata a))"
    unfolding analysis_fields(2) [OF a] by code_simp
  from numeric_column_has_entry [OF a k] a k show ?thesis by blast
qed

end
